theory Spec2Isabelle
  imports Main
begin

section \<open>The contact form component\<close>

text \<open>
  A shallow embedding of \<^verbatim>\<open>src/components/contact-form.tsx\<close>: the React component
  \<^verbatim>\<open>ContactForm\<close>, its two pieces of state (\<^verbatim>\<open>form\<close>, \<^verbatim>\<open>isSubmitted\<close>), its two refs,
  its handlers, its effect and the conditions under which its controls are rendered.

  The field \<^verbatim>\<open>step\<close> is a JavaScript number. It starts at \<^verbatim>\<open>FIRST_STEP\<close> and the only
  arithmetic on it is \<^verbatim>\<open>prev.step + 1\<close>, so it is modelled as an unbounded integer.
\<close>

subsection \<open>State\<close>

definition FIRST_STEP :: int where
  "FIRST_STEP = 1"

definition LAST_STEP :: int where
  "LAST_STEP = 4"

record FormState =
  step :: int
  name :: string
  email :: string
  description :: string

text \<open>The three inputs of the form, one per entry step.\<close>

datatype field = Email | Name | Description

text \<open>
  The side-effecting operations of the component. The component's trace \<open>calls\<close> records
  each invocation, oldest first, so that "how often was it called" can be stated.
\<close>

datatype call = VisibleSpan | FocusOnInput | Alert string

text \<open>
  The two DOM methods the handlers call on a mounted element:
  \<^verbatim>\<open>classList.replace(token, newToken)\<close> on the caret span and \<^verbatim>\<open>focus()\<close> on the input.
  The trace \<open>domOps\<close> records each such method call, oldest first. An entry is made only
  where the method really runs, that is behind the null test of \<^verbatim>\<open>ref.current?.\<close>.
\<close>

datatype dom_op = ClassListReplace string string | Focus

text \<open>
  The component instance: the two \<^verbatim>\<open>useState\<close> cells, the two \<^verbatim>\<open>useRef\<close> cells and the
  two traces. \<open>inputRef\<close> is \<open>None\<close> for \<^verbatim>\<open>null\<close> and \<open>Some b\<close> for a mounted input that has
  the focus iff \<open>b\<close>; \<open>spanRef\<close> is \<open>None\<close> for \<^verbatim>\<open>null\<close> and otherwise the class list of
  the mounted caret span.
\<close>

record ContactForm =
  form :: FormState
  isSubmitted :: bool
  inputRef :: "bool option"
  spanRef :: "string list option"
  calls :: "call list"
  domOps :: "dom_op list"

definition setForm :: "(FormState \<Rightarrow> FormState) \<Rightarrow> ContactForm \<Rightarrow> ContactForm" where
  "setForm updater c = c\<lparr>form := updater (form c)\<rparr>"

definition setIsSubmitted :: "bool \<Rightarrow> ContactForm \<Rightarrow> ContactForm" where
  "setIsSubmitted b c = c\<lparr>isSubmitted := b\<rparr>"

definition isLastStep :: "ContactForm \<Rightarrow> bool" where
  "isLastStep c = (step (form c) = LAST_STEP)"

subsection \<open>The caret span's class list\<close>

text \<open>The \<^verbatim>\<open>className\<close> the caret span is rendered with (line 82).\<close>

definition caret_className :: "string list" where
  "caret_className =
     [''mx-1'', ''hidden'', ''h-5'', ''w-2'', ''translate-y-1'', ''bg-slate-400'',
      ''animate-pulse'']"

text \<open>
  \<^verbatim>\<open>DOMTokenList.replace(token, newToken)\<close>: nothing happens when \<open>token\<close> is absent;
  otherwise the first of the two tokens becomes \<open>newToken\<close> and every other occurrence of
  either is dropped.
\<close>

fun replace_first :: "string \<Rightarrow> string \<Rightarrow> string list \<Rightarrow> string list" where
  "replace_first token newToken [] = []"
| "replace_first token newToken (t # ts) =
     (if t = token \<or> t = newToken
      then newToken # filter (\<lambda>u. u \<noteq> token \<and> u \<noteq> newToken) ts
      else t # replace_first token newToken ts)"

definition classList_replace :: "string \<Rightarrow> string \<Rightarrow> string list \<Rightarrow> string list" where
  "classList_replace token newToken cl =
     (if token \<in> set cl then replace_first token newToken cl else cl)"

subsection \<open>Handlers\<close>

text \<open>Lines 29 to 35: both handlers go through \<^verbatim>\<open>ref.current?.\<close>, so a null ref is skipped.\<close>

definition handleVisibleSpan :: "ContactForm \<Rightarrow> ContactForm" where
  "handleVisibleSpan c =
     (let c' = c\<lparr>calls := calls c @ [VisibleSpan]\<rparr>
      in case spanRef c' of
           None \<Rightarrow> c'
         | Some cl \<Rightarrow>
             c'\<lparr>spanRef := Some (classList_replace ''hidden'' ''inline-block'' cl),
                domOps := domOps c' @ [ClassListReplace ''hidden'' ''inline-block'']\<rparr>)"

definition handleFocusOnInput :: "ContactForm \<Rightarrow> ContactForm" where
  "handleFocusOnInput c =
     (let c' = c\<lparr>calls := calls c @ [FocusOnInput]\<rparr>
      in case inputRef c' of
           None \<Rightarrow> c'
         | Some _ \<Rightarrow> c'\<lparr>inputRef := Some True, domOps := domOps c' @ [Focus]\<rparr>)"

text \<open>Lines 37 to 39. There is no bound check in the handler.\<close>

definition handleNextStep :: "ContactForm \<Rightarrow> ContactForm" where
  "handleNextStep = setForm (\<lambda>prev. prev\<lparr>step := step prev + 1\<rparr>)"

text \<open>Lines 41 to 44.\<close>

definition handleRestart :: "ContactForm \<Rightarrow> ContactForm" where
  "handleRestart c =
     setIsSubmitted False
       (setForm (\<lambda>_. \<lparr>step = FIRST_STEP, name = '''', email = '''', description = ''''\<rparr>) c)"

text \<open>Lines 46 to 49: the blocking alert, then the flag.\<close>

definition handleSend :: "ContactForm \<Rightarrow> ContactForm" where
  "handleSend c = setIsSubmitted True (c\<lparr>calls := calls c @ [Alert ''Form submitted!'']\<rparr>)"

text \<open>Lines 51 to 54.\<close>

definition handleClick :: "ContactForm \<Rightarrow> ContactForm" where
  "handleClick c = handleFocusOnInput (handleVisibleSpan c)"

text \<open>
  The \<^verbatim>\<open>onChange\<close> callbacks handed to \<^verbatim>\<open>renderInputField\<close> (lines 115 to 116, 129 to
  130, 144 to 145), by the input they belong to.
\<close>

fun onChange :: "field \<Rightarrow> string \<Rightarrow> ContactForm \<Rightarrow> ContactForm" where
  "onChange Email v = setForm (\<lambda>prev. prev\<lparr>email := v\<rparr>)"
| "onChange Name v = setForm (\<lambda>prev. prev\<lparr>name := v\<rparr>)"
| "onChange Description v = setForm (\<lambda>prev. prev\<lparr>description := v\<rparr>)"

text \<open>Line 73: \<^verbatim>\<open>e.key === "Enter" && handleNextStep()\<close>.\<close>

definition onKeyDown :: "string \<Rightarrow> ContactForm \<Rightarrow> ContactForm" where
  "onKeyDown key c = (if key = ''Enter'' then handleNextStep c else c)"

text \<open>Reading a field of the form by the input it belongs to.\<close>

fun field_value :: "field \<Rightarrow> FormState \<Rightarrow> string" where
  "field_value Email f = email f"
| "field_value Name f = name f"
| "field_value Description f = description f"

subsection \<open>What is rendered\<close>

text \<open>
  Lines 108 to 149: \<^verbatim>\<open>renderInputField\<close> is called in three places, under conditions on
  the step that exclude one another, so at most one input (and one caret span) is in the
  tree. The result is the field whose input is rendered, if any.
\<close>

definition rendered_input :: "FormState \<Rightarrow> field option" where
  "rendered_input f =
     (if step f = FIRST_STEP then Some Email
      else if step f \<ge> 2 \<and> step f = 2 then Some Name
      else if step f \<ge> 3 \<and> step f = 3 then Some Description
      else None)"

text \<open>Lines 152 to 163: the Restart and Send buttons.\<close>

definition buttons_rendered :: "ContactForm \<Rightarrow> bool" where
  "buttons_rendered c = (isLastStep c \<and> \<not> isSubmitted c)"

subsection \<open>Committing a render\<close>

text \<open>
  React keeps the mounted input and span while the same call of \<^verbatim>\<open>renderInputField\<close>
  stays in the tree, so what the handlers did to them persists. When another input (or
  none) is rendered the old elements are unmounted and both refs are detached; a newly
  mounted input has no focus and its span has the class list it is rendered with.
\<close>

definition attach_refs :: "FormState \<Rightarrow> ContactForm \<Rightarrow> ContactForm" where
  "attach_refs prev c =
     (if rendered_input (form c) = rendered_input prev then c
      else case rendered_input (form c) of
             None \<Rightarrow> c\<lparr>inputRef := None, spanRef := None\<rparr>
           | Some _ \<Rightarrow> c\<lparr>inputRef := Some False, spanRef := Some caret_className\<rparr>)"

text \<open>Lines 56 to 59: the body of the effect.\<close>

definition useEffect_step :: "ContactForm \<Rightarrow> ContactForm" where
  "useEffect_step c = (if step (form c) = FIRST_STEP then c else handleClick c)"

text \<open>
  A re-render after the handlers of one event have run: the refs are brought up to date
  and then the effect runs if its dependency \<^verbatim>\<open>form.step\<close> differs from the value of the
  previous render \<open>prev\<close>.
\<close>

definition rerender :: "FormState \<Rightarrow> ContactForm \<Rightarrow> ContactForm" where
  "rerender prev c =
     (let c' = attach_refs prev c
      in if step (form c') \<noteq> step prev then useEffect_step c' else c')"

text \<open>
  Mounting (lines 16 to 25 and the first render): the initial state, the email input
  mounted, and the effect, which always runs after the first render.
\<close>

definition mount :: ContactForm where
  "mount = useEffect_step
     \<lparr>form = \<lparr>step = FIRST_STEP, name = '''', email = '''', description = ''''\<rparr>,
      isSubmitted = False,
      inputRef = Some False,
      spanRef = Some caret_className,
      calls = [],
      domOps = []\<rparr>"

subsection \<open>User events\<close>

text \<open>
  What the user can do: type into an input (the change event carries the new value),
  press a key in an input, click on the terminal surface, click Restart, click Send.
\<close>

datatype event =
    Change field string
  | KeyDown field string
  | ClickSurface
  | ClickRestart
  | ClickSend

text \<open>An event can be delivered only to a control that is in the rendered tree.\<close>

fun deliverable :: "ContactForm \<Rightarrow> event \<Rightarrow> bool" where
  "deliverable c (Change fld v) = (rendered_input (form c) = Some fld)"
| "deliverable c (KeyDown fld key) = (rendered_input (form c) = Some fld)"
| "deliverable c ClickSurface = True"
| "deliverable c ClickRestart = buttons_rendered c"
| "deliverable c ClickSend = buttons_rendered c"

text \<open>
  The handlers an event runs. The buttons sit inside the surface \<^verbatim>\<open>div\<close> (line 98), so
  a click on a button runs the button's handler and then bubbles to \<^verbatim>\<open>handleClick\<close>.
\<close>

fun handle :: "event \<Rightarrow> ContactForm \<Rightarrow> ContactForm" where
  "handle (Change fld v) c = onChange fld v c"
| "handle (KeyDown fld key) c = onKeyDown key c"
| "handle ClickSurface c = handleClick c"
| "handle ClickRestart c = handleClick (handleRestart c)"
| "handle ClickSend c = handleClick (handleSend c)"

text \<open>The handlers of an event followed by the re-render they cause.\<close>

definition perform :: "event \<Rightarrow> ContactForm \<Rightarrow> ContactForm" where
  "perform e c = rerender (form c) (handle e c)"

text \<open>\<open>None\<close>: the control is not rendered, the event cannot happen.\<close>

definition dispatch :: "event \<Rightarrow> ContactForm \<Rightarrow> ContactForm option" where
  "dispatch e c = (if deliverable c e then Some (perform e c) else None)"

text \<open>An attempted event: without its control nothing happens.\<close>

definition fire :: "event \<Rightarrow> ContactForm \<Rightarrow> ContactForm" where
  "fire e c = (case dispatch e c of None \<Rightarrow> c | Some c' \<Rightarrow> c')"

text \<open>A session: events delivered one after the other, \<open>None\<close> if one of them cannot be.\<close>

fun run :: "event list \<Rightarrow> ContactForm \<Rightarrow> ContactForm option" where
  "run [] c = Some c"
| "run (e # es) c = (case dispatch e c of None \<Rightarrow> None | Some c' \<Rightarrow> run es c')"

subsection \<open>Two sessions\<close>

text \<open>
  The user enters an email and confirms it; then a name and a description, each
  confirmed, which leads to the review. \<open>at_name\<close> and \<open>at_review\<close> are the states the
  two sessions end in (\<open>run_scenario_A\<close>, \<open>run_scenario_B\<close> below), and \<open>at_description\<close>
  is the state before the last event of the second (\<open>run_to_description\<close>).
\<close>

definition scenario_A :: "event list" where
  "scenario_A = [Change Email ''a@b.com'', KeyDown Email ''Enter'']"

definition scenario_B :: "event list" where
  "scenario_B = scenario_A @
     [Change Name ''Ada'', KeyDown Name ''Enter'',
      Change Description ''need help'', KeyDown Description ''Enter'']"

definition at_name :: ContactForm where
  "at_name =
     \<lparr>form = \<lparr>step = 2, name = '''', email = ''a@b.com'', description = ''''\<rparr>,
      isSubmitted = False,
      inputRef = Some True,
      spanRef = Some [''mx-1'', ''inline-block'', ''h-5'', ''w-2'', ''translate-y-1'',
                      ''bg-slate-400'', ''animate-pulse''],
      calls = [VisibleSpan, FocusOnInput],
      domOps = [ClassListReplace ''hidden'' ''inline-block'', Focus]\<rparr>"

definition at_description :: ContactForm where
  "at_description =
     \<lparr>form = \<lparr>step = 3, name = ''Ada'', email = ''a@b.com'', description = ''need help''\<rparr>,
      isSubmitted = False,
      inputRef = Some True,
      spanRef = Some [''mx-1'', ''inline-block'', ''h-5'', ''w-2'', ''translate-y-1'',
                      ''bg-slate-400'', ''animate-pulse''],
      calls = [VisibleSpan, FocusOnInput, VisibleSpan, FocusOnInput],
      domOps = [ClassListReplace ''hidden'' ''inline-block'', Focus,
                ClassListReplace ''hidden'' ''inline-block'', Focus]\<rparr>"

definition at_review :: ContactForm where
  "at_review =
     \<lparr>form = \<lparr>step = 4, name = ''Ada'', email = ''a@b.com'', description = ''need help''\<rparr>,
      isSubmitted = False,
      inputRef = None,
      spanRef = None,
      calls = [VisibleSpan, FocusOnInput, VisibleSpan, FocusOnInput, VisibleSpan,
               FocusOnInput],
      domOps = [ClassListReplace ''hidden'' ''inline-block'', Focus,
                ClassListReplace ''hidden'' ''inline-block'', Focus]\<rparr>"

section \<open>Basic facts\<close>

lemma mount_eq:
  "mount =
     \<lparr>form = \<lparr>step = 1, name = '''', email = '''', description = ''''\<rparr>,
      isSubmitted = False, inputRef = Some False, spanRef = Some caret_className,
      calls = [], domOps = []\<rparr>"
  by (simp add: mount_def useEffect_step_def FIRST_STEP_def)

lemma handleClick_keeps [simp]:
  "form (handleClick c) = form c"
  "isSubmitted (handleClick c) = isSubmitted c"
  by (simp_all add: handleClick_def handleVisibleSpan_def handleFocusOnInput_def Let_def
      split: option.splits)

lemma rerender_keeps [simp]:
  "form (rerender prev c) = form c"
  "isSubmitted (rerender prev c) = isSubmitted c"
  by (simp_all add: rerender_def attach_refs_def useEffect_step_def Let_def
      split: option.splits)

lemma onChange_form:
  "step (form (onChange fld v c)) = step (form c)"
  "field_value fld (form (onChange fld v c)) = v"
  "g \<noteq> fld \<Longrightarrow> field_value g (form (onChange fld v c)) = field_value g (form c)"
  "isSubmitted (onChange fld v c) = isSubmitted c"
  by (cases fld; cases g; simp add: setForm_def)+

lemma rendered_input_cong:
  "step f = step g \<Longrightarrow> rendered_input f = rendered_input g"
  by (simp add: rendered_input_def)

lemma rendered_input_Some:
  "rendered_input f = Some fld \<Longrightarrow> 1 \<le> step f \<and> step f \<le> 3"
  by (auto simp: rendered_input_def FIRST_STEP_def split: if_splits)

lemma rendered_input_None:
  "step f = 4 \<Longrightarrow> rendered_input f = None"
  by (simp add: rendered_input_def FIRST_STEP_def)

text \<open>A render in which the step is the one of the previous render changes nothing.\<close>

lemma rerender_same_step:
  "step (form c) = step prev \<Longrightarrow> rerender prev c = c"
  by (simp add: rerender_def attach_refs_def rendered_input_def Let_def)

lemma dispatch_Change:
  "rendered_input (form c) = Some fld \<Longrightarrow> dispatch (Change fld v) c = Some (onChange fld v c)"
  by (simp add: dispatch_def perform_def rerender_same_step onChange_form)

text \<open>The step after the handlers of an event and the re-render.\<close>

lemma step_perform:
  "step (form (perform e c)) =
     (case e of
        KeyDown fld key \<Rightarrow> if key = ''Enter'' then step (form c) + 1 else step (form c)
      | ClickRestart \<Rightarrow> FIRST_STEP
      | _ \<Rightarrow> step (form c))"
  by (cases e)
    (simp_all add: perform_def onChange_form onKeyDown_def handleNextStep_def setForm_def
      handleRestart_def setIsSubmitted_def handleSend_def)

text \<open>The submission flag after the handlers of an event and the re-render.\<close>

lemma isSubmitted_perform:
  "isSubmitted (perform e c) =
     (case e of ClickRestart \<Rightarrow> False | ClickSend \<Rightarrow> True | _ \<Rightarrow> isSubmitted c)"
  by (cases e)
    (simp_all add: perform_def onChange_form onKeyDown_def handleNextStep_def setForm_def
      handleRestart_def setIsSubmitted_def handleSend_def)

text \<open>What \<open>handleClick\<close> does to the trace and to the two refs.\<close>

lemma calls_handleClick:
  "calls (handleClick c) = calls c @ [VisibleSpan, FocusOnInput]"
  by (simp add: handleClick_def handleVisibleSpan_def handleFocusOnInput_def Let_def
      split: option.splits)

lemma refs_handleClick:
  "inputRef (handleClick c) = (case inputRef c of None \<Rightarrow> None | Some _ \<Rightarrow> Some True)"
  "spanRef (handleClick c) =
     (case spanRef c of
        None \<Rightarrow> None
      | Some cl \<Rightarrow> Some (classList_replace ''hidden'' ''inline-block'' cl))"
  by (simp_all add: handleClick_def handleVisibleSpan_def handleFocusOnInput_def Let_def
      split: option.splits)

lemma domOps_handleClick:
  "domOps (handleClick c) =
     domOps c @
     (case spanRef c of None \<Rightarrow> [] | Some _ \<Rightarrow> [ClassListReplace ''hidden'' ''inline-block'']) @
     (case inputRef c of None \<Rightarrow> [] | Some _ \<Rightarrow> [Focus])"
  by (simp add: handleClick_def handleVisibleSpan_def handleFocusOnInput_def Let_def
      split: option.splits)

lemma attach_refs_keeps [simp]:
  "calls (attach_refs prev c) = calls c"
  "domOps (attach_refs prev c) = domOps c"
  "form (attach_refs prev c) = form c"
  by (simp_all add: attach_refs_def split: option.splits)

lemma caret_shown:
  "classList_replace ''hidden'' ''inline-block'' caret_className =
     [''mx-1'', ''inline-block'', ''h-5'', ''w-2'', ''translate-y-1'', ''bg-slate-400'',
      ''animate-pulse'']"
  by (simp add: classList_replace_def caret_className_def)

text \<open>The two sessions end where the definitions say.\<close>

lemmas eval_defs =
  dispatch_def perform_def rerender_def attach_refs_def useEffect_step_def
  handleClick_def handleVisibleSpan_def handleFocusOnInput_def handleNextStep_def
  handleRestart_def handleSend_def setForm_def setIsSubmitted_def onKeyDown_def
  rendered_input_def buttons_rendered_def isLastStep_def FIRST_STEP_def LAST_STEP_def
  caret_className_def classList_replace_def Let_def

lemma run_scenario_A: "run scenario_A mount = Some at_name"
  by (simp add: scenario_A_def at_name_def mount_eq eval_defs)

lemma run_scenario_B: "run scenario_B mount = Some at_review"
  by (simp add: scenario_B_def scenario_A_def at_review_def mount_eq eval_defs)

lemma run_to_description: "run (butlast scenario_B) mount = Some at_description"
  by (simp add: scenario_B_def scenario_A_def at_description_def mount_eq eval_defs)

lemma description_to_review:
  "dispatch (KeyDown Description ''Enter'') at_description = Some at_review"
  by (simp add: at_description_def at_review_def eval_defs)

section \<open>The advance handler\<close>

text \<open>
  C1. For every \<open>s\<close> with \<open>1 \<le> s \<le> 3\<close>, \<open>handleNextStep\<close> applied to a state whose step is
  \<open>s\<close> yields a state whose step is \<open>s + 1\<close>: it is incremented by exactly one, with no
  skipping and no wrapping.
\<close>

theorem handleNextStep_increments:
  "step (form c) = s \<Longrightarrow> 1 \<le> s \<Longrightarrow> s \<le> 3 \<Longrightarrow> step (form (handleNextStep c)) = s + 1"
  by (simp add: handleNextStep_def setForm_def)

theorem handleNextStep_increments_witness:
  "step (form at_name) = 2 \<and> step (form (handleNextStep at_name)) = 3"
proof -
  have h: "step (form at_name) = 2"
    by (simp add: at_name_def)
  show ?thesis
    using h handleNextStep_increments [OF h] by simp
qed

text \<open>
  C9. \<open>handleNextStep\<close> changes only the step: the email, the name, the description and
  the submission flag are the same before and after the call, for every state.
\<close>

theorem handleNextStep_frame:
  "email (form (handleNextStep c)) = email (form c) \<and>
   name (form (handleNextStep c)) = name (form c) \<and>
   description (form (handleNextStep c)) = description (form c) \<and>
   isSubmitted (handleNextStep c) = isSubmitted c"
  by (simp add: handleNextStep_def setForm_def)

text \<open>
  C2, as stated, does not hold of the handler: \<open>handleNextStep\<close> has no bound check, so
  applied to the review state, whose step is 4, it yields step 5 and not the same state.
\<close>

theorem handleNextStep_at_last_step_counterexample:
  "step (form at_review) = 4 \<and>
   step (form (handleNextStep at_review)) = 5 \<and>
   handleNextStep at_review \<noteq> at_review"
  by (simp add: at_review_def handleNextStep_def setForm_def)

text \<open>
  C2, amended. \<open>handleNextStep\<close> applied to a state with step 4 yields step 5. What keeps
  the form at step 4 is that the handler cannot be reached there: it is bound to the key
  handler of the rendered input only, and at step 4 no input is rendered. So no key event
  can be delivered, whatever the input and the key, and an attempted one leaves the whole
  state as it is.
\<close>

theorem advance_at_last_step:
  "step (form c) = LAST_STEP \<Longrightarrow>
     step (form (handleNextStep c)) = LAST_STEP + 1 \<and>
     dispatch (KeyDown fld key) c = None \<and>
     fire (KeyDown fld key) c = c"
  by (simp add: handleNextStep_def setForm_def fire_def dispatch_def rendered_input_None
      LAST_STEP_def)

theorem advance_at_last_step_witness:
  "step (form at_review) = LAST_STEP \<and>
   step (form (handleNextStep at_review)) = 5 \<and>
   dispatch (KeyDown Description ''Enter'') at_review = None \<and>
   fire (KeyDown Description ''Enter'') at_review = at_review"
proof -
  have h: "step (form at_review) = LAST_STEP"
    by (simp add: at_review_def LAST_STEP_def)
  show ?thesis
    using h advance_at_last_step [OF h, of Description "''Enter''"]
    by (simp add: LAST_STEP_def)
qed

section \<open>The key handler of an input\<close>

text \<open>
  C10. A key event delivered to the rendered input advances the form iff its key is
  exactly the string \<^verbatim>\<open>Enter\<close>: the form after the event is the one \<open>handleNextStep\<close>
  yields iff the key is \<^verbatim>\<open>Enter\<close>, and every other key leaves the step (indeed the whole
  state) unchanged.
\<close>

theorem keydown_advances_iff_enter:
  "dispatch (KeyDown fld key) c = Some c' \<Longrightarrow>
     (form c' = form (handleNextStep c)) = (key = ''Enter'') \<and>
     (key \<noteq> ''Enter'' \<longrightarrow> c' = c)"
  by (auto simp: dispatch_def perform_def onKeyDown_def rerender_same_step handleNextStep_def
      setForm_def split: if_splits dest: arg_cong [where f = step])

theorem keydown_advances_iff_enter_witness:
  "dispatch (KeyDown Name ''Enter'') at_name = Some (perform (KeyDown Name ''Enter'') at_name) \<and>
   form (perform (KeyDown Name ''Enter'') at_name) = form (handleNextStep at_name) \<and>
   dispatch (KeyDown Name ''enter'') at_name = Some at_name"
proof -
  have d: "dispatch (KeyDown Name k) at_name = Some (perform (KeyDown Name k) at_name)" for k
    by (simp add: dispatch_def at_name_def rendered_input_def FIRST_STEP_def)
  show ?thesis
    using d keydown_advances_iff_enter [OF d [of "''Enter''"]]
      keydown_advances_iff_enter [OF d [of "''enter''"]]
    by simp
qed

section \<open>Restart and submit\<close>

text \<open>
  C3. \<open>handleRestart\<close> yields step 1, the three fields empty and the submission flag
  false. This holds from every state, reachable or not, for the handler alone and for
  the whole click on Restart (handler, bubbling click, re-render).
\<close>

theorem handleRestart_resets:
  "form (handleRestart c) = \<lparr>step = 1, name = '''', email = '''', description = ''''\<rparr> \<and>
   isSubmitted (handleRestart c) = False \<and>
   form (perform ClickRestart c) = \<lparr>step = 1, name = '''', email = '''', description = ''''\<rparr> \<and>
   isSubmitted (perform ClickRestart c) = False"
  by (simp add: perform_def handleRestart_def setForm_def setIsSubmitted_def FIRST_STEP_def)

text \<open>
  C4. The submit operation is the click on the Send button, the only place \<open>handleSend\<close>
  is bound to. The button is rendered only at the last step (and while nothing has been
  submitted), so unless the step is 4 the click cannot be delivered and attempting it
  changes nothing. At step 4 with the flag false it sets the flag and leaves the form
  record, that is the step and the three fields, unchanged.
\<close>

theorem send_only_at_last_step:
  "(step (form c) \<noteq> LAST_STEP \<longrightarrow> dispatch ClickSend c = None \<and> fire ClickSend c = c) \<and>
   (step (form c) = LAST_STEP \<and> \<not> isSubmitted c \<longrightarrow>
      isSubmitted (fire ClickSend c) \<and> form (fire ClickSend c) = form c)"
  by (simp add: fire_def dispatch_def buttons_rendered_def isLastStep_def perform_def
      handleSend_def setIsSubmitted_def)

theorem send_only_at_last_step_witness:
  "dispatch ClickSend at_name = None \<and> fire ClickSend at_name = at_name \<and>
   isSubmitted (fire ClickSend at_review) \<and> form (fire ClickSend at_review) = form at_review"
proof -
  have a: "step (form at_name) \<noteq> LAST_STEP"
    by (simp add: at_name_def LAST_STEP_def)
  have b: "step (form at_review) = LAST_STEP \<and> \<not> isSubmitted at_review"
    by (simp add: at_review_def LAST_STEP_def)
  show ?thesis
    using a b send_only_at_last_step [of at_name] send_only_at_last_step [of at_review]
    by simp
qed

lemma fold_perform_submitted:
  "isSubmitted c \<Longrightarrow> ClickRestart \<notin> set es \<Longrightarrow> isSubmitted (fold perform es c)"
proof (induction es arbitrary: c)
  case Nil
  then show ?case by simp
next
  case (Cons e es)
  from Cons.prems have "isSubmitted (perform e c)"
    by (cases e) (simp_all add: isSubmitted_perform)
  with Cons show ?case by simp
qed

text \<open>
  C7. A submit sets the flag. Once the flag is true it stays true under every sequence
  of operations that holds no restart, whichever handlers they run (field edits, key
  presses, clicks on the surface, further submits); an operation after which it is false
  is a restart; and a restart does set it to false. The operations are taken here with
  their handlers and the re-render, whether or not their control is rendered.
\<close>

theorem submitted_until_restart:
  "isSubmitted (perform ClickSend c0) \<and>
   (isSubmitted c \<and> ClickRestart \<notin> set es \<longrightarrow> isSubmitted (fold perform es c)) \<and>
   (isSubmitted c \<and> \<not> isSubmitted (perform e c) \<longrightarrow> e = ClickRestart) \<and>
   \<not> isSubmitted (perform ClickRestart c)"
proof -
  have "isSubmitted (perform ClickSend c0)"
    by (simp add: isSubmitted_perform)
  moreover have "isSubmitted c \<and> ClickRestart \<notin> set es \<longrightarrow> isSubmitted (fold perform es c)"
    using fold_perform_submitted by blast
  moreover have "isSubmitted c \<and> \<not> isSubmitted (perform e c) \<longrightarrow> e = ClickRestart"
    by (cases e) (simp_all add: isSubmitted_perform)
  moreover have "\<not> isSubmitted (perform ClickRestart c)"
    by (simp add: isSubmitted_perform)
  ultimately show ?thesis by blast
qed

theorem submitted_until_restart_witness:
  "isSubmitted (perform ClickSend at_review) \<and>
   isSubmitted (fold perform [ClickSurface, KeyDown Description ''Enter'', ClickSend]
     (perform ClickSend at_review)) \<and>
   \<not> isSubmitted (perform ClickRestart (perform ClickSend at_review))"
  using submitted_until_restart
    [of at_review "perform ClickSend at_review"
      "[ClickSurface, KeyDown Description ''Enter'', ClickSend]" ClickRestart]
  by (simp add: isSubmitted_perform)

section \<open>Field edits\<close>

lemma run_Change:
  "rendered_input (form c) = Some fld \<Longrightarrow>
   \<exists>c'. run (map (Change fld) vs) c = Some c' \<and>
        step (form c') = step (form c) \<and>
        field_value fld (form c') = (if vs = [] then field_value fld (form c) else last vs) \<and>
        (\<forall>g. g \<noteq> fld \<longrightarrow> field_value g (form c') = field_value g (form c))"
proof (induction vs arbitrary: c)
  case Nil
  then show ?case by simp
next
  case (Cons v vs)
  let ?d = "onChange fld v c"
  have r: "rendered_input (form ?d) = Some fld"
    using Cons.prems rendered_input_cong [of "form ?d" "form c"] by (simp add: onChange_form)
  from Cons.IH [OF r] obtain c' where
    c': "run (map (Change fld) vs) ?d = Some c'"
      "step (form c') = step (form ?d)"
      "field_value fld (form c') = (if vs = [] then field_value fld (form ?d) else last vs)"
      "\<forall>g. g \<noteq> fld \<longrightarrow> field_value g (form c') = field_value g (form ?d)"
    by blast
  have "run (map (Change fld) (v # vs)) c = Some c'"
    using c'(1) Cons.prems by (simp add: dispatch_Change)
  then show ?case
    using c' by (simp add: onChange_form)
qed

text \<open>
  C5. Let \<open>fld\<close> be the input that is rendered, and let the user write the values \<open>vs\<close>
  into it one after the other. At every point of the sequence, that is after its first
  \<open>n\<close> values for every \<open>n\<close>, all of these edits have been delivered, the field of \<open>fld\<close>
  holds the value written last (its old value if nothing has been written yet), the two
  other fields are what they were, and so is the step.
\<close>

theorem field_edits_keep_last_value:
  "rendered_input (form c) = Some fld \<Longrightarrow>
   \<exists>c'. run (map (Change fld) (take n vs)) c = Some c' \<and>
        step (form c') = step (form c) \<and>
        field_value fld (form c') =
          (if take n vs = [] then field_value fld (form c) else last (take n vs)) \<and>
        (\<forall>g. g \<noteq> fld \<longrightarrow> field_value g (form c') = field_value g (form c))"
  by (rule run_Change)

theorem field_edits_keep_last_value_witness:
  "\<exists>c'. run [Change Email ''a'', Change Email ''a@''] mount = Some c' \<and>
        step (form c') = 1 \<and> email (form c') = ''a@'' \<and>
        name (form c') = '''' \<and> description (form c') = ''''"
proof -
  have h: "rendered_input (form mount) = Some Email"
    by (simp add: mount_eq rendered_input_def FIRST_STEP_def)
  from field_edits_keep_last_value [OF h, of 2 "[''a'', ''a@'', ''a@b.com'']"]
  obtain c' where c': "run [Change Email ''a'', Change Email ''a@''] mount = Some c'"
    "step (form c') = step (form mount)"
    "field_value Email (form c') = ''a@''"
    "\<forall>g. g \<noteq> Email \<longrightarrow> field_value g (form c') = field_value g (form mount)"
    by (auto simp: numeral_2_eq_2)
  have "field_value Name (form c') = field_value Name (form mount)"
    "field_value Description (form c') = field_value Description (form mount)"
    using c'(4) [rule_format, of Name] c'(4) [rule_format, of Description] by simp_all
  with c' show ?thesis by (simp add: mount_eq)
qed

section \<open>The step of every reachable state\<close>

lemma dispatch_in_range:
  assumes "dispatch e c = Some c'" and "1 \<le> step (form c)" and "step (form c) \<le> 4"
  shows "1 \<le> step (form c') \<and> step (form c') \<le> 4"
proof -
  from assms(1) have d: "deliverable c e" and c': "c' = perform e c"
    by (auto simp: dispatch_def split: if_splits)
  show ?thesis
  proof (cases e)
    case (KeyDown fld key)
    with d have "step (form c) \<le> 3"
      using rendered_input_Some [of "form c" fld] by simp
    with KeyDown assms(2) show ?thesis
      by (simp add: c' step_perform)
  qed (use assms(2,3) in \<open>simp_all add: c' step_perform FIRST_STEP_def\<close>)
qed

lemma run_in_range:
  "run es c = Some c' \<Longrightarrow> 1 \<le> step (form c) \<Longrightarrow> step (form c) \<le> 4 \<Longrightarrow>
   1 \<le> step (form c') \<and> step (form c') \<le> 4"
proof (induction es arbitrary: c)
  case Nil
  then show ?case by simp
next
  case (Cons e es)
  from Cons.prems(1) obtain d where d: "dispatch e c = Some d" "run es d = Some c'"
    by (auto split: option.splits)
  from dispatch_in_range [OF d(1) Cons.prems(2,3)] Cons.IH [OF d(2)]
  show ?case by simp
qed

text \<open>
  C6. Every state the user can reach from the mounted component, by any sequence of
  events that can be delivered (field edits, key presses in the rendered input, clicks
  on the surface, Restart, Send), has its step between \<open>FIRST_STEP\<close> and \<open>LAST_STEP\<close>,
  that is in the range from 1 to 4.
\<close>

theorem step_in_range:
  "run es mount = Some c \<Longrightarrow> FIRST_STEP \<le> step (form c) \<and> step (form c) \<le> LAST_STEP"
  using run_in_range [of es mount c] by (simp add: mount_eq FIRST_STEP_def LAST_STEP_def)

theorem step_in_range_witness:
  "run scenario_B mount = Some at_review \<and>
   FIRST_STEP \<le> step (form at_review) \<and> step (form at_review) \<le> LAST_STEP"
  using run_scenario_B step_in_range [OF run_scenario_B] by simp

section \<open>The effect on the step\<close>

text \<open>
  C8, as stated, does not hold on the change from step 3 to step 4. The key event is
  delivered in \<open>at_description\<close> and leads to \<open>at_review\<close>; the new step 4 is greater than
  1 and the effect runs, but at step 4 no input and no caret span are rendered, both
  refs are null, and the two handlers go through \<^verbatim>\<open>ref.current?.\<close>: no class is replaced
  and no focus is moved, the trace of DOM method calls is what it was before the event.
\<close>

theorem effect_at_last_step_counterexample:
  "dispatch (KeyDown Description ''Enter'') at_description = Some at_review \<and>
   at_review = rerender (form at_description) (onKeyDown ''Enter'' at_description) \<and>
   step (form at_description) = 3 \<and>
   step (form at_review) = 4 \<and>
   domOps at_review = domOps at_description \<and>
   inputRef at_review = None \<and>
   spanRef at_review = None"
  by (simp add: at_description_def at_review_def eval_defs)

text \<open>
  C8, amended. Take a re-render after the handlers of an event, \<open>prev\<close> being the form of
  the previous render.

  \<^item> If the step is the one of the previous render, the effect does not run: the state,
    with its refs and both traces, is unchanged.
  \<^item> If the step has changed and the new step is 2 or 3, a fresh input and span are
    mounted and the effect performs the caret-visibility toggle and the focus move
    exactly once each, in this order: the trace of DOM method calls grows by exactly one
    \<^verbatim>\<open>classList.replace("hidden", "inline-block")\<close> and one \<^verbatim>\<open>focus()\<close>, after which the
    span's class list holds \<^verbatim>\<open>inline-block\<close> in place of \<^verbatim>\<open>hidden\<close> and the input has
    the focus.
  \<^item> If the step has changed and the new step is 1, the effect returns at once: nothing
    is called and nothing is performed; the freshly mounted email input has no focus
    and its caret span is hidden.
  \<^item> If the previous step had an input (1 to 3) and the new step is beyond 3, as on the
    change from 3 to 4, the effect calls \<open>handleVisibleSpan\<close> and \<open>handleFocusOnInput\<close>
    once each, but both refs are null and neither performs anything.
  \<^item> Whenever the step has changed and the new step is greater than 1, the two handlers
    are called exactly once each, in this order.
  \<^item> On mount, at step 1, nothing has been called or performed, the input has no focus
    and the caret span has the class list it is rendered with.
\<close>

theorem effect_per_step_change:
  "(step (form c) = step prev \<longrightarrow> rerender prev c = c) \<and>
   (step (form c) \<noteq> step prev \<and> (step (form c) = 2 \<or> step (form c) = 3) \<longrightarrow>
      domOps (rerender prev c) =
        domOps c @ [ClassListReplace ''hidden'' ''inline-block'', Focus] \<and>
      spanRef (rerender prev c) =
        Some [''mx-1'', ''inline-block'', ''h-5'', ''w-2'', ''translate-y-1'',
              ''bg-slate-400'', ''animate-pulse''] \<and>
      inputRef (rerender prev c) = Some True) \<and>
   (step (form c) \<noteq> step prev \<and> step (form c) = 1 \<longrightarrow>
      calls (rerender prev c) = calls c \<and>
      domOps (rerender prev c) = domOps c \<and>
      spanRef (rerender prev c) = Some caret_className \<and>
      inputRef (rerender prev c) = Some False) \<and>
   (1 \<le> step prev \<and> step prev \<le> 3 \<and> 3 < step (form c) \<longrightarrow>
      calls (rerender prev c) = calls c @ [VisibleSpan, FocusOnInput] \<and>
      domOps (rerender prev c) = domOps c \<and>
      spanRef (rerender prev c) = None \<and>
      inputRef (rerender prev c) = None) \<and>
   (step (form c) \<noteq> step prev \<and> 1 < step (form c) \<longrightarrow>
      calls (rerender prev c) = calls c @ [VisibleSpan, FocusOnInput]) \<and>
   calls mount = [] \<and> domOps mount = [] \<and>
   spanRef mount = Some caret_className \<and> inputRef mount = Some False"
proof -
  have r: "rerender prev c = useEffect_step (attach_refs prev c)"
    if "step (form c) \<noteq> step prev"
    using that by (simp add: rerender_def Let_def)
  have same: "step (form c) = step prev \<longrightarrow> rerender prev c = c"
    by (simp add: rerender_same_step)
  have entry: "step (form c) \<noteq> step prev \<and> (step (form c) = 2 \<or> step (form c) = 3) \<longrightarrow>
      domOps (rerender prev c) =
        domOps c @ [ClassListReplace ''hidden'' ''inline-block'', Focus] \<and>
      spanRef (rerender prev c) =
        Some [''mx-1'', ''inline-block'', ''h-5'', ''w-2'', ''translate-y-1'',
              ''bg-slate-400'', ''animate-pulse''] \<and>
      inputRef (rerender prev c) = Some True"
    by (auto simp: r useEffect_step_def FIRST_STEP_def refs_handleClick domOps_handleClick
        attach_refs_def rendered_input_def caret_shown split: if_splits)
  have first: "step (form c) \<noteq> step prev \<and> step (form c) = 1 \<longrightarrow>
      calls (rerender prev c) = calls c \<and>
      domOps (rerender prev c) = domOps c \<and>
      spanRef (rerender prev c) = Some caret_className \<and>
      inputRef (rerender prev c) = Some False"
    by (auto simp: r useEffect_step_def FIRST_STEP_def attach_refs_def rendered_input_def
        split: if_splits)
  have last: "1 \<le> step prev \<and> step prev \<le> 3 \<and> 3 < step (form c) \<longrightarrow>
      calls (rerender prev c) = calls c @ [VisibleSpan, FocusOnInput] \<and>
      domOps (rerender prev c) = domOps c \<and>
      spanRef (rerender prev c) = None \<and>
      inputRef (rerender prev c) = None"
    by (auto simp: r useEffect_step_def FIRST_STEP_def refs_handleClick domOps_handleClick
        calls_handleClick attach_refs_def rendered_input_def split: if_splits)
  have called: "step (form c) \<noteq> step prev \<and> 1 < step (form c) \<longrightarrow>
      calls (rerender prev c) = calls c @ [VisibleSpan, FocusOnInput]"
    by (auto simp: r useEffect_step_def FIRST_STEP_def calls_handleClick)
  have mounted: "calls mount = [] \<and> domOps mount = [] \<and>
      spanRef mount = Some caret_className \<and> inputRef mount = Some False"
    by (simp add: mount_eq)
  from same entry first last called mounted show ?thesis
    by blast
qed

theorem effect_per_step_change_witness:
  "rerender (form at_name) (onChange Name ''Ada'' at_name) = onChange Name ''Ada'' at_name \<and>
   domOps (rerender (form at_name) (onKeyDown ''Enter'' at_name)) =
     domOps at_name @ [ClassListReplace ''hidden'' ''inline-block'', Focus] \<and>
   inputRef (rerender (form at_name) (onKeyDown ''Enter'' at_name)) = Some True \<and>
   domOps (rerender (form at_review) (handleClick (handleRestart at_review))) =
     domOps at_review \<and>
   inputRef (rerender (form at_review) (handleClick (handleRestart at_review))) =
     Some False \<and>
   calls (rerender (form at_description) (onKeyDown ''Enter'' at_description)) =
     calls at_description @ [VisibleSpan, FocusOnInput] \<and>
   domOps (rerender (form at_description) (onKeyDown ''Enter'' at_description)) =
     domOps at_description"
proof -
  have a: "step (form (onChange Name ''Ada'' at_name)) = step (form at_name)"
    by (rule onChange_form)
  have b: "step (form (onKeyDown ''Enter'' at_name)) \<noteq> step (form at_name)"
    "step (form (onKeyDown ''Enter'' at_name)) = 3"
    "domOps (onKeyDown ''Enter'' at_name) = domOps at_name"
    by (simp_all add: onKeyDown_def handleNextStep_def setForm_def at_name_def)
  have d: "step (form (handleClick (handleRestart at_review))) \<noteq> step (form at_review)"
    "step (form (handleClick (handleRestart at_review))) = 1"
    "domOps (handleClick (handleRestart at_review)) = domOps at_review"
    by (simp_all add: domOps_handleClick handleRestart_def setForm_def setIsSubmitted_def
        at_review_def FIRST_STEP_def)
  have e: "1 \<le> step (form at_description)" "step (form at_description) \<le> 3"
    "3 < step (form (onKeyDown ''Enter'' at_description))"
    "calls (onKeyDown ''Enter'' at_description) = calls at_description"
    "domOps (onKeyDown ''Enter'' at_description) = domOps at_description"
    by (simp_all add: onKeyDown_def handleNextStep_def setForm_def at_description_def)
  show ?thesis
    using a b d e
      effect_per_step_change [of "onChange Name ''Ada'' at_name" "form at_name"]
      effect_per_step_change [of "onKeyDown ''Enter'' at_name" "form at_name"]
      effect_per_step_change [of "handleClick (handleRestart at_review)" "form at_review"]
      effect_per_step_change [of "onKeyDown ''Enter'' at_description" "form at_description"]
    by simp
qed

end
